theory Spec2Isabelle
  imports Main "HOL-Library.Product_Lexorder"
begin

section \<open>JavaScript values at the upstream boundary\<close>

text \<open>
  The adapter reads JSON objects from the Qubic RPC. A field of such an object is modelled
  as an option: \<open>None\<close> is an absent (undefined) property, \<open>Some v\<close> a present one.
  Numbers are the integers the RPC sends. \<open>js_or a b\<close> is the JavaScript expression
  \<^verbatim>\<open>a || b\<close> on numbers: \<open>undefined\<close> and \<open>0\<close> are falsy.
  \<open>js_or_str\<close> is the same on strings, where the empty string is falsy.
\<close>

definition js_or :: "int option \<Rightarrow> int option \<Rightarrow> int option" where
  "js_or a b = (case a of None \<Rightarrow> b | Some n \<Rightarrow> (if n \<noteq> 0 then Some n else b))"

definition js_or_str :: "string option \<Rightarrow> string option \<Rightarrow> string option" where
  "js_or_str a b = (case a of None \<Rightarrow> b | Some s \<Rightarrow> (if s \<noteq> [] then Some s else b))"

definition truthy :: "int option \<Rightarrow> bool" where
  "truthy a = (case a of None \<Rightarrow> False | Some n \<Rightarrow> n \<noteq> 0)"

text \<open>
  A tick object, raw (as the RPC lists it) or normalized. \<open>error\<close> is only set on the
  record that \<open>getLatestTick\<close> builds in its catch handler. Other raw payload fields
  are copied unchanged and read by no code modelled here.
\<close>

record tick =
  tickNumber :: "int option"
  number :: "int option"
  timestamp :: "int option"
  epoch :: "int option"
  error :: "string option"

text \<open>\<^verbatim>\<open>tick.tickNumber || tick.number\<close>, the key most lookups use.\<close>

definition tickKey :: "tick \<Rightarrow> int option" where
  "tickKey t = js_or (tickNumber t) (number t)"

text \<open>
  Object spread \<^verbatim>\<open>{...base, ...src}\<close>: every property present in \<open>src\<close> replaces
  the one of \<open>base\<close>.
\<close>

definition over :: "'a option \<Rightarrow> 'a option \<Rightarrow> 'a option" where
  "over b s = (case s of None \<Rightarrow> b | Some v \<Rightarrow> Some v)"

definition spread :: "tick \<Rightarrow> tick \<Rightarrow> tick" where
  "spread base src =
     \<lparr> tickNumber = over (tickNumber base) (tickNumber src),
       number = over (number base) (number src),
       timestamp = over (timestamp base) (timestamp src),
       epoch = over (epoch base) (epoch src),
       error = over (error base) (error src) \<rparr>"

text \<open>
  \<^verbatim>\<open>normalizeTickData(tickData)\<close>, with \<open>nw\<close> the value of \<^verbatim>\<open>Date.now()\<close>:
  \<^verbatim>\<open>
  if (!tickData) return null;
  return { tickNumber: tickData.tickNumber || tickData.number,
           timestamp: tickData.timestamp || Date.now(),
           epoch: tickData.epoch,
           ...tickData };
  \<close>
  \<open>normalizeTick\<close> is the object branch, \<open>normalizeTickData\<close> adds the null check.
\<close>

definition normalizeTick :: "int \<Rightarrow> tick \<Rightarrow> tick" where
  "normalizeTick nw tickData =
     spread \<lparr> tickNumber = js_or (tickNumber tickData) (number tickData),
              number = None,
              timestamp = js_or (timestamp tickData) (Some nw),
              epoch = epoch tickData,
              error = None \<rparr> tickData"

definition normalizeTickData :: "int \<Rightarrow> tick option \<Rightarrow> tick option" where
  "normalizeTickData nw tickData =
     (case tickData of None \<Rightarrow> None | Some t \<Rightarrow> Some (normalizeTick nw t))"

text \<open>
  \<^verbatim>\<open>x || 0\<close>, and the comparisons and the subtraction of JavaScript on possibly
  undefined numbers: a comparison with \<open>undefined\<close> (NaN) is false, and a comparator
  that yields NaN counts as \<open>+0\<close> in \<^verbatim>\<open>Array.prototype.sort\<close>.
\<close>

definition js_or0 :: "int option \<Rightarrow> int" where
  "js_or0 a = (case a of None \<Rightarrow> 0 | Some n \<Rightarrow> n)"

definition js_lt :: "int option \<Rightarrow> int option \<Rightarrow> bool" where
  "js_lt a b = (case (a, b) of (Some x, Some y) \<Rightarrow> x < y | _ \<Rightarrow> False)"

definition js_le :: "int option \<Rightarrow> int option \<Rightarrow> bool" where
  "js_le a b = (case (a, b) of (Some x, Some y) \<Rightarrow> x \<le> y | _ \<Rightarrow> False)"

definition js_sub :: "int option \<Rightarrow> int option \<Rightarrow> int" where
  "js_sub a b = (case (a, b) of (Some x, Some y) \<Rightarrow> x - y | _ \<Rightarrow> 0)"

text \<open>
  \<^verbatim>\<open>Math.min(...ks)\<close> and \<^verbatim>\<open>Math.max(...ks)\<close> on a non-empty list: NaN
  (\<open>None\<close>) as soon as one argument is undefined.
\<close>

fun js_min_list :: "int option list \<Rightarrow> int option" where
  "js_min_list [] = None"
| "js_min_list [k] = k"
| "js_min_list (k # ks) =
     (case (k, js_min_list ks) of (Some a, Some b) \<Rightarrow> Some (min a b) | _ \<Rightarrow> None)"

fun js_max_list :: "int option list \<Rightarrow> int option" where
  "js_max_list [] = None"
| "js_max_list [k] = k"
| "js_max_list (k # ks) =
     (case (k, js_max_list ks) of (Some a, Some b) \<Rightarrow> Some (max a b) | _ \<Rightarrow> None)"

text \<open>
  \<^verbatim>\<open>xs.sort(cmp)\<close>: the sort of JavaScript is stable, so for a comparator that is
  a consistent order its result is the one of this insertion sort, which puts an element
  before the first later element it does not exceed.
\<close>

fun js_insert :: "('a \<Rightarrow> 'a \<Rightarrow> int) \<Rightarrow> 'a \<Rightarrow> 'a list \<Rightarrow> 'a list" where
  "js_insert cmp x [] = [x]"
| "js_insert cmp x (y # ys) =
     (if cmp x y \<le> 0 then x # y # ys else y # js_insert cmp x ys)"

definition js_sort :: "('a \<Rightarrow> 'a \<Rightarrow> int) \<Rightarrow> 'a list \<Rightarrow> 'a list" where
  "js_sort cmp xs = foldr (js_insert cmp) xs []"

section \<open>The upstream RPC and the cache\<close>

text \<open>
  A request through \<^verbatim>\<open>handleRequest\<close> either throws (axios rejects; only the status
  429 is told apart) or returns the response body. The upstream is taken as a snapshot:
  during one operation the same request gets the same answer. \<open>now\<close> is
  \<^verbatim>\<open>Date.now()\<close> during the operation. The record also carries what the
  JavaScript engine does where the language leaves it open: \<open>engine_sort cmp xs\<close> is the
  result of \<^verbatim>\<open>xs.sort(cmp)\<close> for a comparator that is not a consistent order on
  \<open>xs\<close>.
  \<^item> \<open>rpc_latestTick\<close>: \<^verbatim>\<open>GET /v1/latestTick\<close>, the field \<open>latestTick\<close> of the body;
  \<^item> \<open>rpc_status\<close>: \<^verbatim>\<open>GET /v1/status\<close>, the field \<open>lastProcessedTick.epoch\<close>;
  \<^item> \<open>rpc_epochTicks ep page pageSize\<close>: \<^verbatim>\<open>GET /v2/epochs/ep/ticks\<close>, the array
    \<open>ticks\<close> of the body, \<open>None\<close> when the body has no such array;
  \<^item> \<open>rpc_transactions n\<close>: \<^verbatim>\<open>GET /v2/ticks/n/transactions\<close>, the field
    \<open>transactions\<close> of the body;
  \<^item> \<open>rpc_probe_ok n\<close>: whether the same endpoint, asked for page 0 with page size 1,
    answers without an error.
\<close>

datatype http_error = RateLimited | OtherError

definition message :: "http_error \<Rightarrow> string" where
  "message e = (case e of RateLimited \<Rightarrow> ''Request failed with status code 429''
                        | OtherError \<Rightarrow> ''Request failed'')"

record txn =
  txn_type :: "string option"
  txn_id :: "string option"
  txn_txId :: "string option"
  txn_index :: "int option"
  txn_eventIndex :: "int option"
  txn_sender :: "string option"
  txn_from :: "string option"
  txn_pairId :: "string option"

record upstream =
  rpc_latestTick :: "http_error + int option"
  rpc_status :: "http_error + int option"
  rpc_epochTicks :: "int \<Rightarrow> int \<Rightarrow> int \<Rightarrow> http_error + tick list option"
  rpc_transactions :: "int option \<Rightarrow> http_error + txn list option"
  rpc_probe_ok :: "int option \<Rightarrow> bool"
  now :: int
  engine_sort :: "(tick \<Rightarrow> tick \<Rightarrow> int) \<Rightarrow> tick list \<Rightarrow> tick list"

text \<open>
  Sorting ticks by a possibly undefined number, \<^verbatim>\<open>ts.sort((a, b) => b.k - a.k)\<close>
  (\<open>descendingBy\<close>) or \<^verbatim>\<open>a.k - b.k\<close> (\<open>ascendingBy\<close>). The comparator is a
  consistent order when every tick of the list has the number, or when it compares all
  ticks of the list as equal; then the result is the stable sort. Otherwise ECMAScript
  leaves the order to the engine.
\<close>

definition descendingBy :: "(tick \<Rightarrow> int option) \<Rightarrow> tick \<Rightarrow> tick \<Rightarrow> int" where
  "descendingBy key a b = js_sub (key b) (key a)"

definition ascendingBy :: "(tick \<Rightarrow> int option) \<Rightarrow> tick \<Rightarrow> tick \<Rightarrow> int" where
  "ascendingBy key a b = js_sub (key a) (key b)"

definition consistentOn :: "(tick \<Rightarrow> int option) \<Rightarrow> (tick \<Rightarrow> tick \<Rightarrow> int) \<Rightarrow> tick list \<Rightarrow> bool" where
  "consistentOn key cmp xs =
     (list_all (\<lambda>t. key t \<noteq> None) xs \<or> list_all (\<lambda>a. list_all (\<lambda>b. cmp a b = 0) xs) xs)"

definition sortTicks ::
  "upstream \<Rightarrow> (tick \<Rightarrow> int option) \<Rightarrow> (tick \<Rightarrow> tick \<Rightarrow> int) \<Rightarrow> tick list \<Rightarrow> tick list" where
  "sortTicks w key cmp xs =
     (if consistentOn key cmp xs then js_sort cmp xs else engine_sort w cmp xs)"

text \<open>
  \<^verbatim>\<open>this.cache\<close>. JavaScript object keys are the printed numbers, \<open>None\<close> is the key
  \<^verbatim>\<open>"undefined"\<close>. \<open>status\<close> holds the epoch of the cached status body (it is only
  stored when that epoch is truthy).
\<close>

record cache =
  epochData :: "int \<Rightarrow> tick list option"
  ticks :: "int option \<Rightarrow> tick option"
  status :: "int option"
  statusTimestamp :: int
  epochRanges :: "int \<Rightarrow> (int option \<times> int option) option"
  transactions :: "int option \<Rightarrow> txn list option"

definition empty_cache :: cache where
  "empty_cache = \<lparr> epochData = Map.empty, ticks = Map.empty, status = None,
                    statusTimestamp = 0, epochRanges = Map.empty,
                    transactions = Map.empty \<rparr>"

text \<open>
  \<^verbatim>\<open>getCurrentEpoch()\<close>: the cached status when younger than 30 seconds, else the
  status request; 152 when the request fails or carries no epoch.
\<close>

definition getCurrentEpoch :: "upstream \<Rightarrow> cache \<Rightarrow> int \<times> cache" where
  "getCurrentEpoch w c =
     (if status c \<noteq> None \<and> now w - statusTimestamp c < 30000
      then (js_or0 (js_or (status c) (Some 0)), c)
      else
        (case rpc_status w of
           Inl err \<Rightarrow> (152, c)
         | Inr None \<Rightarrow> (152, c)
         | Inr (Some e) \<Rightarrow>
             if e \<noteq> 0 then (e, c\<lparr>status := Some e, statusTimestamp := now w\<rparr>)
             else (152, c)))"

section \<open>Transactions of a tick\<close>

text \<open>
  \<^verbatim>\<open>getTransactionsForTick(tickNumber)\<close> of the current client:
  \<^verbatim>\<open>
  try {
    if (this.cache.transactions[tickNumber]) return this.cache.transactions[tickNumber];
    const response = await this.handleRequest(`/v2/ticks/${tickNumber}/transactions`);
    const transactions = response.transactions || [];
    this.cache.transactions[tickNumber] = transactions;
    return transactions;
  } catch (error) { return []; }
  \<close>
\<close>

definition getTransactionsForTick :: "upstream \<Rightarrow> cache \<Rightarrow> int option \<Rightarrow> txn list \<times> cache" where
  "getTransactionsForTick w c n =
     (case transactions c n of
        Some cached \<Rightarrow> (cached, c)
      | None \<Rightarrow>
         (case rpc_transactions w n of
            Inl err \<Rightarrow> ([], c)
          | Inr body \<Rightarrow>
              (let txs = (case body of None \<Rightarrow> [] | Some l \<Rightarrow> l)
               in (txs, c\<lparr>transactions := (transactions c)(n \<mapsto> txs)\<rparr>))))"

section \<open>Tick Locator\<close>

text \<open>
  \<^verbatim>\<open>findNearestTickWithBinarySearch(epoch, targetTickNumber, maxAttempts = 8)\<close>.
  The first argument of the loop counts the attempts that are left; \<open>best\<close> is
  \<open>bestMatch\<close> with \<open>bestMatchDistance\<close> (\<open>None\<close>: no match yet, distance
  \<open>Infinity\<close>).
\<close>

definition distanceTo :: "int \<Rightarrow> tick \<Rightarrow> int option" where
  "distanceTo target t = map_option (\<lambda>k. \<bar>k - target\<bar>) (tickKey t)"

definition closer :: "int \<Rightarrow> (tick \<times> int) option \<Rightarrow> tick \<Rightarrow> (tick \<times> int) option" where
  "closer target best t =
     (case distanceTo target t of
        None \<Rightarrow> best
      | Some d \<Rightarrow>
         (case best of
            None \<Rightarrow> Some (t, d)
          | Some (b, bd) \<Rightarrow> if d < bd then Some (t, d) else best))"

definition nearestInPage :: "int \<Rightarrow> tick \<Rightarrow> tick list \<Rightarrow> tick" where
  "nearestInPage target first page =
     fst (foldl (\<lambda>(nearest, nearestDistance) t.
                  if js_lt (distanceTo target t) nearestDistance then (t, distanceTo target t)
                  else (nearest, nearestDistance))
               (first, distanceTo target first) page)"

fun binarySearchLoop ::
  "nat \<Rightarrow> upstream \<Rightarrow> int \<Rightarrow> int \<Rightarrow> int \<Rightarrow> int \<Rightarrow> (tick \<times> int) option \<Rightarrow> tick option" where
  "binarySearchLoop 0 w ep target lowPage highPage best =
     map_option (\<lambda>(b, d). normalizeTick (now w) b) best"
| "binarySearchLoop (Suc k) w ep target lowPage highPage best =
     (let midPage = (lowPage + highPage) div 2 in
      case rpc_epochTicks w ep midPage 500 of
        Inl err \<Rightarrow>
          (let lowPage' = (if 2 * midPage < lowPage + highPage then midPage + 1 else lowPage);
               highPage' = (if 2 * midPage < lowPage + highPage then highPage else midPage - 1)
           in if lowPage' > highPage'
              then map_option (\<lambda>(b, d). normalizeTick (now w) b) best
              else binarySearchLoop k w ep target lowPage' highPage' best)
      | Inr None \<Rightarrow>
          (if lowPage > midPage - 1
           then map_option (\<lambda>(b, d). normalizeTick (now w) b) best
           else binarySearchLoop k w ep target lowPage (midPage - 1) best)
      | Inr (Some []) \<Rightarrow>
          (if lowPage > midPage - 1
           then map_option (\<lambda>(b, d). normalizeTick (now w) b) best
           else binarySearchLoop k w ep target lowPage (midPage - 1) best)
      | Inr (Some (t # ts)) \<Rightarrow>
          (let minTickInPage = js_min_list (map tickKey (t # ts));
               maxTickInPage = js_max_list (map tickKey (t # ts))
           in if js_le minTickInPage (Some target) \<and> js_le (Some target) maxTickInPage
              then (case find (\<lambda>x. tickKey x = Some target) (t # ts) of
                      Some exactMatch \<Rightarrow> Some (normalizeTick (now w) exactMatch)
                    | None \<Rightarrow> Some (normalizeTick (now w) (nearestInPage target t (t # ts))))
              else
                (let best' = foldl (closer target) best (t # ts);
                     lowPage' = (if js_lt (Some target) minTickInPage then lowPage else midPage + 1);
                     highPage' = (if js_lt (Some target) minTickInPage then midPage - 1 else highPage)
                 in if lowPage' > highPage'
                    then map_option (\<lambda>(b, d). normalizeTick (now w) b) best'
                    else binarySearchLoop k w ep target lowPage' highPage' best')))"

definition findNearestTickWithBinarySearch :: "upstream \<Rightarrow> int \<Rightarrow> int \<Rightarrow> tick option" where
  "findNearestTickWithBinarySearch w ep targetTickNumber =
     binarySearchLoop 8 w ep targetTickNumber 0 1000 None"

text \<open>
  \<^verbatim>\<open>getTickByNumber(tickNumber)\<close>. \<open>findInPage\<close> is one request for a page followed
  by \<^verbatim>\<open>ticks.find(t => (t.tickNumber || t.number) === tickNumber)\<close>, inside its
  try block: an error or a body without ticks finds nothing. \<open>tryPages\<close> is the loop over
  the five earlier or later pages, \<open>targetedLookup\<close> the attempt on the estimated page of
  the current epoch, \<open>previousEpochs\<close> the loop over the epoch offsets 1 to 5.
\<close>

definition findInPage :: "upstream \<Rightarrow> int \<Rightarrow> int \<Rightarrow> int \<Rightarrow> tick option" where
  "findInPage w ep page target =
     (case rpc_epochTicks w ep page 500 of
        Inr (Some ts) \<Rightarrow> find (\<lambda>t. tickKey t = Some target) ts
      | _ \<Rightarrow> None)"

fun tryPages :: "upstream \<Rightarrow> int \<Rightarrow> int \<Rightarrow> int list \<Rightarrow> tick option" where
  "tryPages w ep target [] = None"
| "tryPages w ep target (p # ps) =
     (case findInPage w ep p target of
        Some t \<Rightarrow> Some t
      | None \<Rightarrow> tryPages w ep target ps)"

definition targetedLookup :: "upstream \<Rightarrow> int \<Rightarrow> int \<Rightarrow> tick option" where
  "targetedLookup w currentEpoch tickNum =
     (let estimatedPage = tickNum div 500 in
      case rpc_epochTicks w currentEpoch estimatedPage 500 of
        Inl err \<Rightarrow> None
      | Inr None \<Rightarrow> None
      | Inr (Some ts) \<Rightarrow>
         (case find (\<lambda>t. tickKey t = Some tickNum) ts of
            Some targetTick \<Rightarrow> Some targetTick
          | None \<Rightarrow>
             if ts = [] then None
             else
               (let minTickInPage = js_min_list (map tickKey ts);
                    maxTickInPage = js_max_list (map tickKey ts)
                in case (if js_lt (Some tickNum) minTickInPage
                         then tryPages w currentEpoch tickNum
                                (map (\<lambda>pageOffset. max 0 (estimatedPage - pageOffset)) [1, 2, 3, 4, 5])
                         else None) of
                     Some targetTick \<Rightarrow> Some targetTick
                   | None \<Rightarrow>
                      (if js_lt maxTickInPage (Some tickNum)
                       then tryPages w currentEpoch tickNum
                              (map (\<lambda>pageOffset. estimatedPage + pageOffset) [1, 2, 3, 4, 5])
                       else None))))"

fun previousEpochs :: "upstream \<Rightarrow> int \<Rightarrow> int \<Rightarrow> int list \<Rightarrow> tick option" where
  "previousEpochs w currentEpoch tickNum [] = None"
| "previousEpochs w currentEpoch tickNum (epochOffset # rest) =
     (let prevEpoch = currentEpoch - epochOffset in
      if prevEpoch < 0 then previousEpochs w currentEpoch tickNum rest
      else
        (case rpc_epochTicks w prevEpoch (tickNum div 500) 500 of
           Inr (Some ts) \<Rightarrow>
             (case find (\<lambda>t. tickKey t = Some tickNum) ts of
                Some targetTick \<Rightarrow> Some (normalizeTick (now w) targetTick)
              | None \<Rightarrow>
                 if ts \<noteq> [] then
                   (case findNearestTickWithBinarySearch w prevEpoch tickNum of
                      Some nearestTick \<Rightarrow> Some nearestTick
                    | None \<Rightarrow> previousEpochs w currentEpoch tickNum rest)
                 else previousEpochs w currentEpoch tickNum rest)
         | _ \<Rightarrow> previousEpochs w currentEpoch tickNum rest))"

text \<open>
  The result is stored under the requested number when the tick or a nearest tick was
  found; the placeholder record is returned without being stored. Every request of the
  function sits in a try block of its own, so its outer catch handler is never entered.
\<close>

definition getTickByNumber :: "upstream \<Rightarrow> cache \<Rightarrow> int \<Rightarrow> tick \<times> cache" where
  "getTickByNumber w c tickNum =
     (case ticks c (Some tickNum) of
        Some cached \<Rightarrow> (cached, c)
      | None \<Rightarrow>
         (let (currentEpoch, c1) = getCurrentEpoch w c in
          case targetedLookup w currentEpoch tickNum of
            Some targetTick \<Rightarrow>
              (let normalizedTick = normalizeTick (now w) targetTick
               in (normalizedTick, c1\<lparr>ticks := (ticks c1)(Some tickNum \<mapsto> normalizedTick)\<rparr>))
          | None \<Rightarrow>
             (case previousEpochs w currentEpoch tickNum [1, 2, 3, 4, 5] of
                Some found \<Rightarrow> (found, c1\<lparr>ticks := (ticks c1)(Some tickNum \<mapsto> found)\<rparr>)
              | None \<Rightarrow>
                  (\<lparr> tickNumber = Some tickNum, number = None, timestamp = Some (now w),
                     epoch = None, error = None \<rparr>, c1))))"

section \<open>Range Collector\<close>

text \<open>
  \<^verbatim>\<open>getTicksInBlockRange(fromBlock, toBlock, maxResults = Infinity)\<close> of the current
  client. \<open>pushTicks\<close> is the loop that normalizes, pushes and caches the ticks of one
  page that passed the range filter, up to \<open>actualMaxResults\<close>; \<open>scanPages\<close> is the
  loop over the target pages of one epoch (a failed request is caught and the loop goes
  on); \<open>scanPreviousEpochs\<close> is the loop over the epoch offsets 1 to 5.
\<close>

definition inBlockRange :: "int \<Rightarrow> int \<Rightarrow> tick \<Rightarrow> bool" where
  "inBlockRange fromBlock toBlock t =
     (js_le (Some fromBlock) (tickKey t) \<and> js_le (tickKey t) (Some toBlock))"

fun pushTicks :: "int \<Rightarrow> int \<Rightarrow> tick list \<Rightarrow> tick list \<times> cache \<Rightarrow> tick list \<times> cache" where
  "pushTicks nw actualMaxResults [] acc = acc"
| "pushTicks nw actualMaxResults (t # ts) (validTicks, c) =
     (if int (length validTicks) \<ge> actualMaxResults then (validTicks, c)
      else
        (let normalizedTick = normalizeTick nw t
         in pushTicks nw actualMaxResults ts
              (validTicks @ [normalizedTick],
               c\<lparr>ticks := (ticks c)(tickNumber normalizedTick \<mapsto> normalizedTick)\<rparr>)))"

fun scanPages ::
  "upstream \<Rightarrow> int \<Rightarrow> int \<Rightarrow> int \<Rightarrow> int \<Rightarrow> int list \<Rightarrow> tick list \<times> cache \<Rightarrow> tick list \<times> cache" where
  "scanPages w ep fromBlock toBlock actualMaxResults [] acc = acc"
| "scanPages w ep fromBlock toBlock actualMaxResults (page # pages) (validTicks, c) =
     (if \<not> int (length validTicks) < actualMaxResults then (validTicks, c)
      else
        scanPages w ep fromBlock toBlock actualMaxResults pages
          (case rpc_epochTicks w ep page 500 of
             Inr (Some ts) \<Rightarrow>
               pushTicks (now w) actualMaxResults (filter (inBlockRange fromBlock toBlock) ts)
                 (validTicks, c)
           | _ \<Rightarrow> (validTicks, c)))"

fun scanPreviousEpochs ::
  "upstream \<Rightarrow> int \<Rightarrow> int \<Rightarrow> int \<Rightarrow> int \<Rightarrow> int list \<Rightarrow> int list \<Rightarrow> tick list \<times> cache
     \<Rightarrow> tick list \<times> cache" where
  "scanPreviousEpochs w currentEpoch fromBlock toBlock actualMaxResults pages [] acc = acc"
| "scanPreviousEpochs w currentEpoch fromBlock toBlock actualMaxResults pages
     (epochOffset # rest) (validTicks, c) =
     (if \<not> int (length validTicks) < actualMaxResults then (validTicks, c)
      else if currentEpoch - epochOffset < 0
      then scanPreviousEpochs w currentEpoch fromBlock toBlock actualMaxResults pages rest
             (validTicks, c)
      else scanPreviousEpochs w currentEpoch fromBlock toBlock actualMaxResults pages rest
             (scanPages w (currentEpoch - epochOffset) fromBlock toBlock actualMaxResults pages
                (validTicks, c)))"

text \<open>
  The pages visited in an epoch are \<open>fromBlockPage\<close>, \<open>fromBlockPage + 1\<close>, ... while
  \<open>page \<le> toBlockPage\<close> and \<open>page < fromBlockPage + pagesToCheck\<close>.
  \<open>maxResults\<close> is \<open>None\<close> for \<open>Infinity\<close>.
\<close>

definition targetPages :: "int \<Rightarrow> int \<Rightarrow> int list" where
  "targetPages fromBlock toBlock =
     (let fromBlockPage = fromBlock div 500;
          toBlockPage = toBlock div 500;
          pagesToCheck = min 10 (toBlockPage - fromBlockPage + 1)
      in [fromBlockPage .. min toBlockPage (fromBlockPage + pagesToCheck - 1)])"

definition middleFallback ::
  "upstream \<Rightarrow> int \<Rightarrow> int \<Rightarrow> tick list \<times> cache \<Rightarrow> tick list \<times> cache" where
  "middleFallback w fromBlock toBlock acc =
     (case acc of (validTicks, c) \<Rightarrow>
        if validTicks = [] \<and> toBlock - fromBlock + 1 \<le> 1000 then
          (let (middleTick, c') = getTickByNumber w c ((fromBlock + toBlock) div 2)
           in if error middleTick = None \<or> error middleTick = Some []
              then (validTicks @ [middleTick], c') else (validTicks, c'))
        else (validTicks, c))"

definition getTicksInBlockRange ::
  "upstream \<Rightarrow> cache \<Rightarrow> int \<Rightarrow> int \<Rightarrow> int option \<Rightarrow> tick list \<times> cache" where
  "getTicksInBlockRange w c fromBlock toBlock maxResults =
     (let rangeSize = toBlock - fromBlock + 1;
          actualMaxResults = (case maxResults of None \<Rightarrow> rangeSize | Some m \<Rightarrow> min m rangeSize);
          (currentEpoch, c1) = getCurrentEpoch w c;
          pages = targetPages fromBlock toBlock;
          acc1 = scanPages w currentEpoch fromBlock toBlock actualMaxResults pages ([], c1);
          acc2 = scanPreviousEpochs w currentEpoch fromBlock toBlock actualMaxResults pages
                   [1, 2, 3, 4, 5] acc1;
          (validTicks, c3) = middleFallback w fromBlock toBlock acc2
      in if validTicks = [] then ([], c3)
         else (sortTicks w tickNumber (ascendingBy tickNumber) validTicks, c3))"

section \<open>Event Extractor and Sorter\<close>

text \<open>
  A block and an event of the DEXTools format. The amount and reserve strings of an
  event (decimal formatting of floating point numbers) are left out: no code modelled
  here reads them. \<open>txnId = None\<close> stands for the random identifier that
  \<^verbatim>\<open>Math.random()\<close> makes up for a transaction without one.
\<close>

record block =
  blockNumber :: int
  blockTimestamp :: int

datatype event_type = Creation | Swap | Join | Exit

record event =
  block :: block
  txnId :: "string option"
  txnIndex :: int
  eventIndex :: int
  maker :: string
  pairId :: string
  eventType :: event_type

text \<open>
  \<^verbatim>\<open>transformTickToBlock(tick)\<close> for a tick object:
  \<^verbatim>\<open>blockNumber: tick.tickNumber || tick.number || 0\<close>,
  \<^verbatim>\<open>blockTimestamp: Math.floor((tick.timestamp || Date.now()) / 1000)\<close>.
\<close>

definition transformTickToBlock :: "int \<Rightarrow> tick \<Rightarrow> block" where
  "transformTickToBlock nw t =
     \<lparr> blockNumber = js_or0 (js_or (js_or (tickNumber t) (number t)) (Some 0)),
       blockTimestamp = js_or0 (js_or (timestamp t) (Some nw)) div 1000 \<rparr>"

text \<open>
  \<open>mapEventType\<close> is the table of \<^verbatim>\<open>_mapEventType\<close>, \<open>switchEventType\<close> the
  case labels of the switch in \<^verbatim>\<open>transformTransactionsToEvents\<close>. A type outside
  the table makes no event.
\<close>

definition mapEventType :: "string \<Rightarrow> event_type option" where
  "mapEventType qubicEventType =
     (if qubicEventType \<in> {''PAIR_CREATED'', ''PAIR_CREATE'', ''CREATE_PAIR''} then Some Creation
      else if qubicEventType \<in> {''SWAP'', ''EXCHANGE''} then Some Swap
      else if qubicEventType \<in> {''ADD_LIQUIDITY'', ''JOIN_POOL'', ''PROVIDE_LIQUIDITY''} then Some Join
      else if qubicEventType \<in> {''REMOVE_LIQUIDITY'', ''EXIT_POOL'', ''WITHDRAW_LIQUIDITY''} then Some Exit
      else None)"

definition switchEventType :: "string \<Rightarrow> event_type option" where
  "switchEventType ty =
     (if ty = ''PAIR_CREATED'' \<or> ty = ''PAIR_CREATE'' \<or> ty = ''CREATE_PAIR'' then Some Creation
      else if ty = ''SWAP'' \<or> ty = ''EXCHANGE'' then Some Swap
      else if ty = ''ADD_LIQUIDITY'' \<or> ty = ''JOIN_POOL'' \<or> ty = ''PROVIDE_LIQUIDITY'' then Some Join
      else if ty = ''REMOVE_LIQUIDITY'' \<or> ty = ''EXIT_POOL'' \<or> ty = ''WITHDRAW_LIQUIDITY''
      then Some Exit
      else None)"

definition str_or :: "string option \<Rightarrow> string \<Rightarrow> string" where
  "str_or a d = (case a of None \<Rightarrow> d | Some s \<Rightarrow> (if s \<noteq> [] then s else d))"

definition transformTransaction :: "int \<Rightarrow> tick \<Rightarrow> txn \<Rightarrow> event list" where
  "transformTransaction nw tickData tx =
     (case txn_type tx of
        None \<Rightarrow> []
      | Some ty \<Rightarrow>
         if ty = [] then []
         else if mapEventType ty = None then []
         else
           (case switchEventType ty of
              None \<Rightarrow> []
            | Some et \<Rightarrow>
               [\<lparr> block = transformTickToBlock nw tickData,
                   txnId = js_or_str (txn_id tx) (txn_txId tx),
                   txnIndex = js_or0 (js_or (txn_index tx) (Some 0)),
                   eventIndex = js_or0 (js_or (txn_eventIndex tx) (Some 0)),
                   maker = str_or (js_or_str (txn_sender tx) (txn_from tx)) ''unknown'',
                   pairId = str_or (txn_pairId tx) ''unknown'',
                   eventType = et \<rparr>]))"

definition transformTransactionsToEvents :: "int \<Rightarrow> txn list \<Rightarrow> tick \<Rightarrow> event list" where
  "transformTransactionsToEvents nw txs tickData =
     concat (map (transformTransaction nw tickData) txs)"

text \<open>
  \<^verbatim>\<open>getEvents(req, res)\<close> from the parsed integers \<open>fromBlockNum\<close> and
  \<open>toBlockNum\<close> on. \<open>collectEvents\<close> is its loop over the ticks of the range,
  \<open>eventCompare\<close> the comparator of its final sort.
\<close>

fun collectEvents :: "upstream \<Rightarrow> tick list \<Rightarrow> event list \<times> cache \<Rightarrow> event list \<times> cache" where
  "collectEvents w [] acc = acc"
| "collectEvents w (t # ts) (allEvents, c) =
     (let (txs, c') = getTransactionsForTick w c (tickNumber t)
      in collectEvents w ts
           (if txs \<noteq> [] then allEvents @ transformTransactionsToEvents (now w) txs t
            else allEvents, c'))"

definition eventCompare :: "event \<Rightarrow> event \<Rightarrow> int" where
  "eventCompare a b =
     (if blockNumber (block a) \<noteq> blockNumber (block b)
      then blockNumber (block a) - blockNumber (block b)
      else eventIndex a - eventIndex b)"

datatype events_response = Status400 | Events "event list"

definition getEvents :: "upstream \<Rightarrow> cache \<Rightarrow> int \<Rightarrow> int \<Rightarrow> events_response \<times> cache" where
  "getEvents w c fromBlockNum toBlockNum =
     (if fromBlockNum < 0 \<or> toBlockNum < 0 then (Status400, c)
      else if fromBlockNum > toBlockNum then (Status400, c)
      else if toBlockNum - fromBlockNum + 1 > 100000 then (Status400, c)
      else
        (let (ticksInRange, c1) = getTicksInBlockRange w c fromBlockNum toBlockNum None
         in if ticksInRange = [] then (Events [], c1)
            else
              (let (allEvents, c2) = collectEvents w ticksInRange ([], c1)
               in (Events (js_sort eventCompare allEvents), c2))))"

section \<open>Latest-Safe-Tick Selector\<close>

text \<open>
  \<^verbatim>\<open>getLatestTick()\<close>. \<open>cacheAndPush\<close> is the loop
  \<^verbatim>\<open>for (const tick of ticks) { cache.ticks[tick.tickNumber || tick.number] = normalize(tick); recentTicks.push(...) }\<close>;
  \<open>cacheAndPushMax\<close> is the same loop leaving once \<open>recentTicks\<close> holds
  \<open>RECENT_TICKS_MAX\<close> ticks; \<open>recentPages\<close> is the loop over the pages 0 and 1,
  which stops at the first page that fails or has no tick array; \<open>collectRecentTicks\<close>
  is the request for the estimated page followed, when the safe tick is not on it, by
  that loop; \<open>previousEpochNewest\<close> is the attempt on page 0 of the previous epoch;
  \<open>selectSafeTick\<close> is the choice among the recent ticks.
\<close>

fun cacheAndPush :: "int \<Rightarrow> tick list \<Rightarrow> tick list \<times> cache \<Rightarrow> tick list \<times> cache" where
  "cacheAndPush nw [] acc = acc"
| "cacheAndPush nw (t # ts) (recentTicks, c) =
     cacheAndPush nw ts
       (recentTicks @ [normalizeTick nw t],
        c\<lparr>ticks := (ticks c)(tickKey t \<mapsto> normalizeTick nw t)\<rparr>)"

fun cacheAndPushMax :: "int \<Rightarrow> nat \<Rightarrow> tick list \<Rightarrow> tick list \<times> cache \<Rightarrow> tick list \<times> cache" where
  "cacheAndPushMax nw limit [] acc = acc"
| "cacheAndPushMax nw limit (t # ts) (recentTicks, c) =
     (let acc' = (recentTicks @ [normalizeTick nw t],
                  c\<lparr>ticks := (ticks c)(tickKey t \<mapsto> normalizeTick nw t)\<rparr>)
      in if length (fst acc') \<ge> limit then acc' else cacheAndPushMax nw limit ts acc')"

fun recentPages :: "upstream \<Rightarrow> int \<Rightarrow> int list \<Rightarrow> tick list \<times> cache \<Rightarrow> tick list \<times> cache" where
  "recentPages w currentEpoch [] acc = acc"
| "recentPages w currentEpoch (page # pages) (recentTicks, c) =
     (if length recentTicks \<ge> 200 then (recentTicks, c)
      else
        (case rpc_epochTicks w currentEpoch page 100 of
           Inr (Some ts) \<Rightarrow>
             recentPages w currentEpoch pages (cacheAndPushMax (now w) 200 ts (recentTicks, c))
         | _ \<Rightarrow> (recentTicks, c)))"

definition previousEpochNewest :: "upstream \<Rightarrow> int \<Rightarrow> tick option" where
  "previousEpochNewest w prevEpoch =
     (case rpc_epochTicks w prevEpoch 0 100 of
        Inr (Some ts) \<Rightarrow>
          (case sortTicks w tickKey (descendingBy tickKey) ts of
             [] \<Rightarrow> None
           | newestTick # _ \<Rightarrow> Some (normalizeTick (now w) newestTick))
      | _ \<Rightarrow> None)"

definition selectSafeTick :: "upstream \<Rightarrow> int \<Rightarrow> int \<Rightarrow> tick list \<Rightarrow> tick option" where
  "selectSafeTick w currentEpoch safeTickNumber recentTicks =
     (let sorted = sortTicks w tickNumber (descendingBy tickNumber) recentTicks in
      case find (\<lambda>t. tickNumber t = Some safeTickNumber) sorted of
        Some safeTickData \<Rightarrow> Some safeTickData
      | None \<Rightarrow>
         (case filter (\<lambda>t. js_le (tickNumber t) (Some safeTickNumber)) sorted of
            older # _ \<Rightarrow> Some older
          | [] \<Rightarrow>
             if sorted \<noteq> [] then Some (last sorted)
             else previousEpochNewest w (currentEpoch - 1)))"

definition collectRecentTicks :: "upstream \<Rightarrow> int \<Rightarrow> int \<Rightarrow> cache \<Rightarrow> tick list \<times> cache" where
  "collectRecentTicks w currentEpoch safeTickNumber c1 =
     (let estimatedPage = safeTickNumber div 100;
          acc1 = (case rpc_epochTicks w currentEpoch estimatedPage 100 of
                    Inr (Some ts) \<Rightarrow> cacheAndPush (now w) ts ([], c1)
                  | _ \<Rightarrow> ([], c1))
      in if find (\<lambda>t. tickNumber t = Some safeTickNumber) (fst acc1) = None
         then recentPages w currentEpoch [0, 1] acc1 else acc1)"

definition getLatestTick :: "upstream \<Rightarrow> cache \<Rightarrow> tick \<times> cache" where
  "getLatestTick w c =
     (case rpc_latestTick w of
        Inl err \<Rightarrow>
          (\<lparr> tickNumber = Some 0, number = None, timestamp = Some (now w), epoch = None,
             error = Some (message err) \<rparr>, c)
      | Inr body \<Rightarrow>
         if \<not> truthy body then
           (\<lparr> tickNumber = Some 0, number = None, timestamp = Some (now w), epoch = None,
              error = None \<rparr>, c)
         else
           (let latestTickNumber = js_or0 body;
                safeTickNumber = max 0 (latestTickNumber - 10);
                (currentEpoch, c1) = getCurrentEpoch w c;
                (recentTicks, c2) = collectRecentTicks w currentEpoch safeTickNumber c1
            in case selectSafeTick w currentEpoch safeTickNumber recentTicks of
                 Some safeTickData \<Rightarrow> (safeTickData, c2)
               | None \<Rightarrow>
                   (\<lparr> tickNumber = Some safeTickNumber, number = None,
                      timestamp = Some (now w), epoch = Some currentEpoch, error = None \<rparr>,
                    c2)))"

text \<open>
  \<^verbatim>\<open>getRecentValidTicks(count)\<close>: the newest ticks of page 0 of the current epoch;
  page 0 of the previous epoch only when the request for the current epoch throws.
  \<open>pushAll\<close> normalizes, pushes and caches under the normalized tickNumber; it is the
  loop of the current epoch, whose bound \<^verbatim>\<open>Math.min(count, sortedTicks.length)\<close> is
  fixed. The loop of the previous epoch,
  \<^verbatim>\<open>for (let i = 0; i < Math.min(count - validTicks.length, sortedTicks.length); i++)\<close>,
  reads the length of \<open>validTicks\<close> again before every iteration, so its bound
  shrinks with every push: \<open>pushShrinking\<close>.
\<close>

fun pushAll :: "int \<Rightarrow> tick list \<Rightarrow> tick list \<times> cache \<Rightarrow> tick list \<times> cache" where
  "pushAll nw [] acc = acc"
| "pushAll nw (t # ts) (validTicks, c) =
     (let normalizedTick = normalizeTick nw t
      in pushAll nw ts
           (validTicks @ [normalizedTick],
            c\<lparr>ticks := (ticks c)(tickNumber normalizedTick \<mapsto> normalizedTick)\<rparr>))"

function pushShrinking ::
  "int \<Rightarrow> nat \<Rightarrow> nat \<Rightarrow> tick list \<Rightarrow> tick list \<times> cache \<Rightarrow> tick list \<times> cache" where
  "pushShrinking nw count i sortedTicks (validTicks, c) =
     (if int i < min (int count - int (length validTicks)) (int (length sortedTicks))
      then
        (let normalizedTick = normalizeTick nw (sortedTicks ! i)
         in pushShrinking nw count (i + 1) sortedTicks
              (validTicks @ [normalizedTick],
               c\<lparr>ticks := (ticks c)(tickNumber normalizedTick \<mapsto> normalizedTick)\<rparr>))
      else (validTicks, c))"
  by pat_completeness auto
termination
  by (relation "measure (\<lambda>(nw, count, i, sortedTicks, acc). length sortedTicks - i)") auto

definition getRecentValidTicks :: "upstream \<Rightarrow> cache \<Rightarrow> nat \<Rightarrow> tick list \<times> cache" where
  "getRecentValidTicks w c count =
     (let (currentEpoch, c1) = getCurrentEpoch w c;
          (validTicks, c2) =
            (case rpc_epochTicks w currentEpoch 0 500 of
               Inr body \<Rightarrow>
                 (case body of
                    Some ts \<Rightarrow>
                      pushAll (now w)
                        (take count (sortTicks w tickKey (descendingBy tickKey) ts)) ([], c1)
                  | None \<Rightarrow> ([], c1))
             | Inl err \<Rightarrow>
                 if currentEpoch > 0 then
                   (case rpc_epochTicks w (currentEpoch - 1) 0 500 of
                      Inr (Some ts) \<Rightarrow>
                        pushShrinking (now w) count 0
                          (sortTicks w tickKey (descendingBy tickKey) ts) ([], c1)
                    | _ \<Rightarrow> ([], c1))
                 else ([], c1))
      in (sortTicks w tickNumber (descendingBy tickNumber) validTicks, c2))"

text \<open>
  \<^verbatim>\<open>getLatestBlock(req, res)\<close> of the block controller: status 500 when the
  selected tick has no truthy tickNumber; the selected tick when the probe of its
  transactions endpoint answers; otherwise the first of \<^verbatim>\<open>getRecentValidTicks(5)\<close>
  whose probe answers, and status 500 when none does.
\<close>

datatype block_response = Status500 | Block block

fun firstAccessible :: "upstream \<Rightarrow> tick list \<Rightarrow> tick option" where
  "firstAccessible w [] = None"
| "firstAccessible w (t # ts) =
     (if rpc_probe_ok w (tickNumber t) then Some t else firstAccessible w ts)"

definition getLatestBlock :: "upstream \<Rightarrow> cache \<Rightarrow> block_response \<times> cache" where
  "getLatestBlock w c =
     (let (latestValidTick, c1) = getLatestTick w c in
      if \<not> truthy (tickNumber latestValidTick) then (Status500, c1)
      else if rpc_probe_ok w (tickNumber latestValidTick)
      then (Block (transformTickToBlock (now w) latestValidTick), c1)
      else
        (let (saferTicks, c2) = getRecentValidTicks w c1 5 in
         case firstAccessible w saferTicks of
           Some t \<Rightarrow> (Block (transformTickToBlock (now w) t), c2)
         | None \<Rightarrow> (Status500, c2)))"

section \<open>Epoch listing and lookup by timestamp\<close>










section \<open>Auxiliary notions for the statements\<close>

text \<open>
  The ordering key of an event, and the concatenation of the per-tick event lists of a
  range before the final sort of \<open>getEvents\<close>.
\<close>

definition eventKey :: "event \<Rightarrow> int \<times> int" where
  "eventKey e = (blockNumber (block e), eventIndex e)"

definition unsortedEvents :: "upstream \<Rightarrow> cache \<Rightarrow> int \<Rightarrow> int \<Rightarrow> event list" where
  "unsortedEvents w c fromBlockNum toBlockNum =
     (let (ticksInRange, c1) = getTicksInBlockRange w c fromBlockNum toBlockNum None
      in fst (collectEvents w ticksInRange ([], c1)))"

definition validRange :: "int \<Rightarrow> int \<Rightarrow> bool" where
  "validRange fromBlockNum toBlockNum =
     (0 \<le> fromBlockNum \<and> fromBlockNum \<le> toBlockNum \<and> toBlockNum - fromBlockNum + 1 \<le> 100000)"

text \<open>
  The events made from the transactions of one tick, as the loop of \<open>getEvents\<close>
  makes them when the cache is \<open>c\<close>. \<open>listedTicks w currentEpoch fromBlock toBlock\<close>:
  the ticks of the range as the upstream lists them on the pages the Range Collector
  visits, in the order of its visit: the target pages of the current epoch, then those
  of the epochs 1 to 5 before it that are not negative.
\<close>

definition pageTicksInRange :: "upstream \<Rightarrow> int \<Rightarrow> int \<Rightarrow> int \<Rightarrow> int \<Rightarrow> tick list" where
  "pageTicksInRange w fromBlock toBlock ep page =
     (case rpc_epochTicks w ep page 500 of
        Inr (Some ts) \<Rightarrow> filter (inBlockRange fromBlock toBlock) ts
      | _ \<Rightarrow> [])"

definition epochTicksInRange :: "upstream \<Rightarrow> int \<Rightarrow> int \<Rightarrow> int \<Rightarrow> tick list" where
  "epochTicksInRange w fromBlock toBlock ep =
     concat (map (pageTicksInRange w fromBlock toBlock ep) (targetPages fromBlock toBlock))"

definition listedTicks :: "upstream \<Rightarrow> int \<Rightarrow> int \<Rightarrow> int \<Rightarrow> tick list" where
  "listedTicks w currentEpoch fromBlock toBlock =
     epochTicksInRange w fromBlock toBlock currentEpoch
     @ concat (map (epochTicksInRange w fromBlock toBlock)
                   (filter (\<lambda>ep. 0 \<le> ep) (map (\<lambda>epochOffset. currentEpoch - epochOffset) [1, 2, 3, 4, 5])))"

definition tickEvents :: "upstream \<Rightarrow> cache \<Rightarrow> tick \<Rightarrow> event list" where
  "tickEvents w c t =
     transformTransactionsToEvents (now w) (fst (getTransactionsForTick w c (tickNumber t))) t"









section \<open>Upstream snapshots used as test inputs\<close>

definition mkTick :: "int \<Rightarrow> int \<Rightarrow> tick" where
  "mkTick n ep = \<lparr> tickNumber = Some n, number = None, timestamp = Some (1700000000000 + n),
                   epoch = Some ep, error = None \<rparr>"

definition mkTxn :: "string \<Rightarrow> string \<Rightarrow> int \<Rightarrow> txn" where
  "mkTxn ty ident ei = \<lparr> txn_type = Some ty, txn_id = Some ident, txn_txId = None,
                         txn_index = Some ei, txn_eventIndex = Some ei,
                         txn_sender = Some ''MAKER'', txn_from = None,
                         txn_pairId = Some ''PAIR'' \<rparr>"

definition mkEvent :: "int \<Rightarrow> string \<Rightarrow> int \<Rightarrow> event_type \<Rightarrow> event" where
  "mkEvent n ident ei et =
     \<lparr> block = \<lparr> blockNumber = n, blockTimestamp = (1700000000000 + n) div 1000 \<rparr>,
       txnId = Some ident, txnIndex = ei, eventIndex = ei, maker = ''MAKER'',
       pairId = ''PAIR'', eventType = et \<rparr>"

text \<open>
  The epoch is 152 and the head is tick 5000. The only tick any listing holds is tick
  1200, on page 2 of epoch 151; it has one swap.
\<close>

definition upstream_far_tick :: upstream where
  "upstream_far_tick =
     \<lparr> rpc_latestTick = Inr (Some 5000),
       rpc_status = Inr (Some 152),
       rpc_epochTicks = (\<lambda>ep page pageSize.
          if ep = 151 \<and> page = 2 then Inr (Some [mkTick 1200 151]) else Inr (Some [])),
       rpc_transactions = (\<lambda>n.
          if n = Some 1200 then Inr (Some [mkTxn ''SWAP'' ''tx-a'' 0]) else Inr (Some [])),
       rpc_probe_ok = (\<lambda>n. True),
       now = 1700000009000,
       engine_sort = (\<lambda>cmp xs. xs) \<rparr>"

text \<open>
  Page 2 of epoch 152 lists the ticks 1004, 1000 and 1002; tick 1000 has two
  transactions (event indexes 1 and 0, in this order) and one of an unknown type, tick
  1004 has one, tick 1002 none.
\<close>

definition upstream_three_ticks :: upstream where
  "upstream_three_ticks =
     \<lparr> rpc_latestTick = Inr (Some 5000),
       rpc_status = Inr (Some 152),
       rpc_epochTicks = (\<lambda>ep page pageSize.
          if ep = 152 \<and> page = 2
          then Inr (Some [mkTick 1004 152, mkTick 1000 152, mkTick 1002 152])
          else Inr (Some [])),
       rpc_transactions = (\<lambda>n.
          if n = Some 1000
          then Inr (Some [mkTxn ''SWAP'' ''tx-b'' 1, mkTxn ''TRANSFER'' ''tx-c'' 2,
                          mkTxn ''ADD_LIQUIDITY'' ''tx-d'' 0])
          else if n = Some 1004 then Inr (Some [mkTxn ''EXIT_POOL'' ''tx-e'' 0])
          else Inr (Some [])),
       rpc_probe_ok = (\<lambda>n. True),
       now = 1700000009000,
       engine_sort = (\<lambda>cmp xs. xs) \<rparr>"

text \<open>
  Tick 1000 is listed on page 2 of epoch 152 and again on page 2 of epoch 151; it has
  one swap.
\<close>

definition upstream_tick_in_two_epochs :: upstream where
  "upstream_tick_in_two_epochs =
     \<lparr> rpc_latestTick = Inr (Some 5000),
       rpc_status = Inr (Some 152),
       rpc_epochTicks = (\<lambda>ep page pageSize.
          if (ep = 152 \<or> ep = 151) \<and> page = 2 then Inr (Some [mkTick 1000 ep])
          else Inr (Some [])),
       rpc_transactions = (\<lambda>n.
          if n = Some 1000 then Inr (Some [mkTxn ''SWAP'' ''tx-f'' 0]) else Inr (Some [])),
       rpc_probe_ok = (\<lambda>n. True),
       now = 1700000009000,
       engine_sort = (\<lambda>cmp xs. xs) \<rparr>"

text \<open>
  The epoch is 152 and the head is tick 21180050. Page 0 of epoch 152 lists the ticks
  \<open>ns\<close>, every other page is empty; \<open>probe\<close> tells which ticks answer the probe
  of their transactions endpoint.
\<close>

definition upstream_head :: "int list \<Rightarrow> (int option \<Rightarrow> bool) \<Rightarrow> upstream" where
  "upstream_head ns probe =
     \<lparr> rpc_latestTick = Inr (Some 21180050),
       rpc_status = Inr (Some 152),
       rpc_epochTicks = (\<lambda>ep page pageSize.
          if ep = 152 \<and> page = 0 then Inr (Some (map (\<lambda>n. mkTick n 152) ns))
          else Inr (Some [])),
       rpc_transactions = (\<lambda>n. Inr (Some [])),
       rpc_probe_ok = probe,
       now = 1700021190000,
       engine_sort = (\<lambda>cmp xs. xs) \<rparr>"

text \<open>
  Two such snapshots: page 0 lists only the head tick and tick 21180045, and every
  probe answers; page 0 lists the ticks 21180030, 21180050 and 21180045, and only the
  probe of the head tick 21180050 answers.
\<close>

definition upstream_head_fresh :: upstream where
  "upstream_head_fresh = upstream_head [21180050, 21180045] (\<lambda>n. True)"

definition upstream_head_answers :: upstream where
  "upstream_head_answers =
     upstream_head [21180030, 21180050, 21180045] (\<lambda>n. n = Some 21180050)"

text \<open>No epoch lists any tick; \<open>t\<close> is the time of the call.\<close>

definition upstream_without_ticks :: "int \<Rightarrow> upstream" where
  "upstream_without_ticks t =
     \<lparr> rpc_latestTick = Inr (Some 5000),
       rpc_status = Inr (Some 152),
       rpc_epochTicks = (\<lambda>ep page pageSize. Inr (Some [])),
       rpc_transactions = (\<lambda>n. Inr (Some [])),
       rpc_probe_ok = (\<lambda>n. True),
       now = t,
       engine_sort = (\<lambda>cmp xs. xs) \<rparr>"

text \<open>Every request to the upstream fails.\<close>

definition upstream_down :: upstream where
  "upstream_down =
     \<lparr> rpc_latestTick = Inl OtherError,
       rpc_status = Inl OtherError,
       rpc_epochTicks = (\<lambda>ep page pageSize. Inl OtherError),
       rpc_transactions = (\<lambda>n. Inl OtherError),
       rpc_probe_ok = (\<lambda>n. False),
       now = 1700000009000,
       engine_sort = (\<lambda>cmp xs. xs) \<rparr>"



section \<open>Tick normalization\<close>

lemma normalizeTick_tickNumber:
  "tickNumber (normalizeTick nw t) = (case tickNumber t of None \<Rightarrow> number t | Some n \<Rightarrow> Some n)"
  by (simp add: normalizeTick_def spread_def over_def js_or_def split: option.splits)

text \<open>
  C10, as stated, fails: for the raw tick \<open>{tickNumber: 0, number: 7}\<close> the claim says
  the normalized tickNumber is the raw number field, 7, the value of
  \<^verbatim>\<open>t.tickNumber || t.number\<close>. The spread after the computed fields puts the raw
  tickNumber back, so it is 0.
\<close>

theorem normalizeTickData_zero_counterexample:
  "map_option tickNumber
     (normalizeTickData 1700000000000
        (Some \<lparr> tickNumber = Some 0, number = Some 7, timestamp = Some 5,
                 epoch = Some 152, error = None \<rparr>))
   = Some (Some 0) \<and>
   js_or (tickNumber \<lparr> tickNumber = Some 0, number = Some 7, timestamp = Some 5,
                       epoch = Some 152, error = None \<rparr>)
         (number \<lparr> tickNumber = Some 0, number = Some 7, timestamp = Some 5,
                   epoch = Some 152, error = None \<rparr>)
   = Some 7"
  by (simp add: normalizeTickData_def normalizeTick_def spread_def over_def js_or_def)

text \<open>
  C10, amended: \<open>normalizeTickData\<close> returns null exactly for a null argument, and
  otherwise the record's tickNumber is the raw tickNumber whenever the raw tick has that
  field (a raw 0 stays 0); the raw number field is used only when the raw tickNumber field
  is absent.
\<close>

theorem normalizeTickData_tickNumber:
  "(normalizeTickData nw td = None \<longleftrightarrow> td = None) \<and>
   (\<forall>t. td = Some t \<longrightarrow>
      (\<exists>r. normalizeTickData nw td = Some r \<and>
           tickNumber r = (case tickNumber t of None \<Rightarrow> number t | Some n \<Rightarrow> Some n)))"
  by (auto simp: normalizeTickData_def normalizeTick_tickNumber split: option.splits)

theorem normalizeTickData_tickNumber_witness:
  "\<exists>r. normalizeTickData 1700000000000
          (Some \<lparr> tickNumber = Some 0, number = Some 7, timestamp = Some 5,
                   epoch = Some 152, error = None \<rparr>) = Some r
       \<and> tickNumber r = Some 0"
  using normalizeTickData_tickNumber
    [of 1700000000000
        "Some \<lparr> tickNumber = Some 0, number = Some 7, timestamp = Some 5,
                 epoch = Some 152, error = None \<rparr>"]
  by simp

section \<open>Transactions of a tick: failures\<close>

text \<open>
  C7, as stated, fails: when the request for the transactions of tick 7 fails,
  \<open>getTransactionsForTick\<close> does not fail; it returns the empty list, the same value
  as for a tick without transactions.
\<close>

theorem getTransactionsForTick_failure_counterexample:
  "rpc_transactions upstream_down (Some 7) = Inl OtherError \<and>
   fst (getTransactionsForTick upstream_down empty_cache (Some 7)) = []"
  by (simp add: getTransactionsForTick_def upstream_down_def empty_cache_def)

text \<open>
  C7, amended: \<open>getTransactionsForTick\<close> never fails. It returns the cached list when
  the tick has one; otherwise the transaction records of the upstream answer (the empty
  list when the answer carries none), which it caches; and when the upstream call fails
  it returns the empty list and caches nothing.
\<close>

theorem getTransactionsForTick_results:
  "(transactions c n = Some cached \<longrightarrow> getTransactionsForTick w c n = (cached, c)) \<and>
   (transactions c n = None \<and> rpc_transactions w n = Inr (Some txs) \<longrightarrow>
      fst (getTransactionsForTick w c n) = txs \<and>
      transactions (snd (getTransactionsForTick w c n)) n = Some txs) \<and>
   (transactions c n = None \<and> rpc_transactions w n = Inr None \<longrightarrow>
      fst (getTransactionsForTick w c n) = [] \<and>
      transactions (snd (getTransactionsForTick w c n)) n = Some []) \<and>
   (transactions c n = None \<and> rpc_transactions w n = Inl err \<longrightarrow>
      getTransactionsForTick w c n = ([], c))"
  by (simp add: getTransactionsForTick_def)

theorem getTransactionsForTick_results_witness:
  "transactions empty_cache (Some 1000) = None \<and>
   rpc_transactions upstream_tick_in_two_epochs (Some 1000) = Inr (Some [mkTxn ''SWAP'' ''tx-f'' 0]) \<and>
   fst (getTransactionsForTick upstream_tick_in_two_epochs empty_cache (Some 1000))
     = [mkTxn ''SWAP'' ''tx-f'' 0] \<and>
   transactions empty_cache (Some 7) = None \<and>
   rpc_transactions upstream_down (Some 7) = Inl OtherError \<and>
   getTransactionsForTick upstream_down empty_cache (Some 7) = ([], empty_cache)"
proof -
  have h1: "transactions empty_cache (Some 1000) = None"
    and h2: "transactions empty_cache (Some 7) = None"
    by (simp_all add: empty_cache_def)
  have h3: "rpc_transactions upstream_tick_in_two_epochs (Some 1000)
              = Inr (Some [mkTxn ''SWAP'' ''tx-f'' 0])"
    by (simp add: upstream_tick_in_two_epochs_def)
  have h4: "rpc_transactions upstream_down (Some 7) = Inl OtherError"
    by (simp add: upstream_down_def)
  show ?thesis
    using h1 h2 h3 h4
      getTransactionsForTick_results
        [of empty_cache "Some 1000" _ upstream_tick_in_two_epochs
            "[mkTxn ''SWAP'' ''tx-f'' 0]" _]
      getTransactionsForTick_results
        [of empty_cache "Some 7" _ upstream_down _ OtherError]
    by simp
qed

section \<open>Order of the events of a range\<close>

lemma eventCompare_le: "eventCompare a b \<le> 0 \<longleftrightarrow> eventKey a \<le> eventKey b"
  by (auto simp: eventCompare_def eventKey_def less_eq_prod_def)

lemma js_insert_insort_key:
  assumes "\<And>x y. cmp x y \<le> 0 \<longleftrightarrow> key x \<le> key y"
  shows "js_insert cmp x ys = insort_key key x ys"
  by (induction ys) (simp_all add: assms)

lemma js_sort_sort_key:
  assumes "\<And>x y. cmp x y \<le> 0 \<longleftrightarrow> key x \<le> (key y :: 'k :: linorder)"
  shows "js_sort cmp xs = sort_key key xs"
proof -
  have "js_insert cmp = insort_key key"
    using js_insert_insort_key[of cmp key, OF assms] by (intro ext)
  then show ?thesis by (simp add: js_sort_def sort_key_def)
qed

lemma js_sort_events: "js_sort eventCompare xs = sort_key eventKey xs"
  by (rule js_sort_sort_key) (rule eventCompare_le)

lemma getEvents_valid:
  assumes "validRange a b"
  shows "fst (getEvents w c a b) = Events (js_sort eventCompare (unsortedEvents w c a b))"
  using assms
  by (auto simp: getEvents_def unsortedEvents_def validRange_def js_sort_def Let_def
           split: prod.splits)

text \<open>
  C5: for a valid range request the handler answers with an event list that is sorted
  ascending by the key (blockNumber, eventIndex), in the lexicographic order of pairs, so
  in particular every two adjacent events are in order; and the events of any one key
  \<open>k\<close> come in the order they had in the concatenation of the per-tick event lists.
\<close>

theorem getEvents_sorted_stable:
  assumes "validRange a b"
  shows "\<exists>es. fst (getEvents w c a b) = Events es
            \<and> sorted (map eventKey es)
            \<and> filter (\<lambda>e. eventKey e = k) es
                = filter (\<lambda>e. eventKey e = k) (unsortedEvents w c a b)"
  using getEvents_valid[OF assms, of w c]
  by (simp add: js_sort_events sort_key_stable)

theorem getEvents_sorted_stable_witness:
  "validRange 1000 1005 \<and>
   (\<exists>es. fst (getEvents upstream_three_ticks empty_cache 1000 1005) = Events es
        \<and> sorted (map eventKey es)
        \<and> filter (\<lambda>e. eventKey e = (1000, 0)) es
            = filter (\<lambda>e. eventKey e = (1000, 0))
                (unsortedEvents upstream_three_ticks empty_cache 1000 1005))"
proof -
  have v: "validRange 1000 1005" by (simp add: validRange_def)
  show ?thesis using v getEvents_sorted_stable[OF v] by simp
qed

section \<open>Ticks outside the requested range\<close>

text \<open>
  C2 at the request for the range 1000 to 1000 on \<open>upstream_far_tick\<close>: no page
  holds a tick of the range, the middle-block fallback asks \<open>getTickByNumber\<close> for tick
  1000, the binary search in epoch 151 answers with its nearest tick 1200, and the handler
  returns the swap of tick 1200 as an event of the range: its blockNumber 1200 is above
  \<open>toBlock = 1000\<close>.
\<close>

theorem getEvents_outside_range:
  "validRange 1000 1000 \<and>
   fst (getEvents upstream_far_tick empty_cache 1000 1000)
     = Events [mkEvent 1200 ''tx-a'' 0 Swap] \<and>
   \<not> blockNumber (block (mkEvent 1200 ''tx-a'' 0 Swap)) \<le> 1000"
  by code_simp

text \<open>
  C6 at the request for the range 995 to 1005 on the same upstream, where no listing
  holds a tick of the range: the Range Collector does not return the empty list, it
  returns tick 1200 in its place, and the handler answers with an event.
\<close>

theorem getTicksInBlockRange_substitutes:
  "validRange 995 1005 \<and>
   \<not> inBlockRange 995 1005 (mkTick 1200 151) \<and>
   fst (getTicksInBlockRange upstream_far_tick empty_cache 995 1005 None) = [mkTick 1200 151] \<and>
   fst (getEvents upstream_far_tick empty_cache 995 1005) = Events [mkEvent 1200 ''tx-a'' 0 Swap]"
  by code_simp

section \<open>The safety buffer of the latest block\<close>

text \<open>
  C1 at the head tick 21180050, where the safe tick number is 21180040: page 0 of the
  current epoch lists only the ticks 21180050 and 21180045, so no listed tick is at or
  below the safe tick number, \<open>getLatestTick\<close> takes the oldest of the recent ticks,
  its probe answers, and the endpoint returns block 21180045, which is above
  21180050 - 10.
\<close>

theorem getLatestBlock_above_safe_tick:
  "rpc_latestTick upstream_head_fresh = Inr (Some 21180050) \<and>
   fst (getLatestTick upstream_head_fresh empty_cache) = mkTick 21180045 152 \<and>
   fst (getLatestBlock upstream_head_fresh empty_cache)
     = Block \<lparr> blockNumber = 21180045, blockTimestamp = 1700021180 \<rparr>"
  by code_simp

section \<open>Looking a tick up twice\<close>

lemma getCurrentEpoch_ticks: "ticks (snd (getCurrentEpoch w c)) = ticks c"
  by (auto simp: getCurrentEpoch_def split: sum.splits option.splits)

lemma getTickByNumber_stored:
  assumes "getTickByNumber w c n = (r, c')"
    and "ticks c (Some n) \<noteq> None
         \<or> targetedLookup w (fst (getCurrentEpoch w c)) n \<noteq> None
         \<or> previousEpochs w (fst (getCurrentEpoch w c)) n [1, 2, 3, 4, 5] \<noteq> None"
  shows "ticks c' (Some n) = Some r"
proof (cases "ticks c (Some n)")
  case (Some t)
  then show ?thesis using assms(1) by (simp add: getTickByNumber_def)
next
  case None
  obtain cur c1 where g: "getCurrentEpoch w c = (cur, c1)"
    by (cases "getCurrentEpoch w c")
  have t1: "ticks c1 = ticks c" using getCurrentEpoch_ticks[of w c] g by simp
  show ?thesis
    using assms None g t1
    by (auto simp: getTickByNumber_def Let_def split: option.splits)
qed

text \<open>
  C9, as stated, fails on the placeholder path: no epoch lists tick 1000, the first
  call returns a placeholder stamped with its own \<^verbatim>\<open>Date.now()\<close> and stores
  nothing, and the second call, one millisecond later, returns a record with another
  timestamp.
\<close>

theorem getTickByNumber_placeholder_counterexample:
  "fst (getTickByNumber (upstream_without_ticks 1700000009000) empty_cache 1000)
     = \<lparr> tickNumber = Some 1000, number = None, timestamp = Some 1700000009000,
         epoch = None, error = None \<rparr> \<and>
   ticks (snd (getTickByNumber (upstream_without_ticks 1700000009000) empty_cache 1000))
         (Some 1000) = None \<and>
   fst (getTickByNumber (upstream_without_ticks 1700000009001)
          (snd (getTickByNumber (upstream_without_ticks 1700000009000) empty_cache 1000)) 1000)
     = \<lparr> tickNumber = Some 1000, number = None, timestamp = Some 1700000009001,
         epoch = None, error = None \<rparr>"
  by code_simp

text \<open>
  C9, amended: when the first call of \<open>getTickByNumber n\<close> answers from the cache, or
  finds the tick on a page, or finds a nearest tick by binary search, the record is in
  the cache under \<open>n\<close> afterwards, and a second call in succession returns the
  identical record and leaves the cache as it is, whatever the upstream \<open>w'\<close> answers
  by then. (A placeholder result is not stored, and the second call searches again.)
\<close>

theorem getTickByNumber_twice:
  assumes "getTickByNumber w c n = (r, c')"
    and "ticks c (Some n) \<noteq> None
         \<or> targetedLookup w (fst (getCurrentEpoch w c)) n \<noteq> None
         \<or> previousEpochs w (fst (getCurrentEpoch w c)) n [1, 2, 3, 4, 5] \<noteq> None"
  shows "getTickByNumber w' c' n = (r, c')"
  using getTickByNumber_stored[OF assms] by (simp add: getTickByNumber_def)

theorem getTickByNumber_twice_witness:
  "previousEpochs upstream_far_tick (fst (getCurrentEpoch upstream_far_tick empty_cache)) 1000
     [1, 2, 3, 4, 5] \<noteq> None \<and>
   fst (getTickByNumber upstream_far_tick empty_cache 1000) = mkTick 1200 151 \<and>
   fst (getTickByNumber upstream_down
          (snd (getTickByNumber upstream_far_tick empty_cache 1000)) 1000) = mkTick 1200 151"
proof -
  have h: "previousEpochs upstream_far_tick
             (fst (getCurrentEpoch upstream_far_tick empty_cache)) 1000 [1, 2, 3, 4, 5] \<noteq> None"
    by code_simp
  have r: "fst (getTickByNumber upstream_far_tick empty_cache 1000) = mkTick 1200 151"
    by code_simp
  have "getTickByNumber upstream_down
          (snd (getTickByNumber upstream_far_tick empty_cache 1000)) 1000
        = (fst (getTickByNumber upstream_far_tick empty_cache 1000),
           snd (getTickByNumber upstream_far_tick empty_cache 1000))"
    by (rule getTickByNumber_twice[where w = upstream_far_tick and c = empty_cache])
       (use h in simp_all)
  then show ?thesis using h r by simp
qed

section \<open>Sorting ticks\<close>

lemma js_insert_insort_key_on:
  assumes "\<forall>y\<in>set ys. cmp x y \<le> 0 \<longleftrightarrow> key x \<le> key y"
  shows "js_insert cmp x ys = insort_key key x ys"
  using assms by (induction ys) simp_all

lemma js_sort_sort_key_on:
  assumes "\<forall>x\<in>set xs. \<forall>y\<in>set xs. cmp x y \<le> 0 \<longleftrightarrow> key x \<le> (key y :: 'k :: linorder)"
  shows "js_sort cmp xs = sort_key key xs"
  using assms
proof (induction xs)
  case Nil
  then show ?case by (simp add: js_sort_def)
next
  case (Cons x xs)
  have ih: "js_sort cmp xs = sort_key key xs" using Cons by simp
  have "js_sort cmp (x # xs) = js_insert cmp x (sort_key key xs)"
    using ih by (simp add: js_sort_def)
  also have "\<dots> = insort_key key x (sort_key key xs)"
    by (rule js_insert_insort_key_on) (use Cons.prems in simp)
  finally show ?case by simp
qed




lemma sortTicks_ascending:
  assumes "list_all (\<lambda>t. key t \<noteq> None) xs"
  shows "sortTicks w key (ascendingBy key) xs = sort_key (\<lambda>t. js_or0 (key t)) xs"
proof -
  have "js_sort (ascendingBy key) xs = sort_key (\<lambda>t. js_or0 (key t)) xs"
    by (rule js_sort_sort_key_on)
       (use assms in \<open>auto simp: ascendingBy_def js_sub_def js_or0_def list_all_iff
                         split: option.splits\<close>)
  then show ?thesis using assms by (simp add: sortTicks_def consistentOn_def)
qed

lemma sortTicks_single: "sortTicks w key (ascendingBy key) [x] = [x]"
  by (simp add: sortTicks_def consistentOn_def ascendingBy_def js_sub_def js_sort_def
           split: option.splits)


section \<open>Duplicate events\<close>

lemma getTransactionsForTick_again:
  "fst (getTransactionsForTick w (snd (getTransactionsForTick w c m)) n)
     = fst (getTransactionsForTick w c n)"
  by (auto simp: getTransactionsForTick_def Let_def split: option.splits sum.splits)

lemma transformTransactionsToEvents_Nil [simp]:
  "transformTransactionsToEvents nw [] t = []"
  by (simp add: transformTransactionsToEvents_def)

lemma tickEvents_again:
  "tickEvents w (snd (getTransactionsForTick w c m)) t = tickEvents w c t"
  by (simp add: tickEvents_def getTransactionsForTick_again)

lemma collectEvents_concat:
  "fst (collectEvents w ts (evs, c)) = evs @ concat (map (tickEvents w c) ts)"
proof (induction ts arbitrary: evs c)
  case Nil
  then show ?case by simp
next
  case (Cons t ts)
  obtain txs c' where g: "getTransactionsForTick w c (tickNumber t) = (txs, c')"
    by (cases "getTransactionsForTick w c (tickNumber t)")
  have c': "c' = snd (getTransactionsForTick w c (tickNumber t))" using g by simp
  have same: "map (tickEvents w c') ts = map (tickEvents w c) ts"
    unfolding c' by (simp add: tickEvents_again)
  have step: "(if txs \<noteq> [] then evs @ transformTransactionsToEvents (now w) txs t else evs)
                = evs @ tickEvents w c t"
    using g by (simp add: tickEvents_def)
  show ?case
    using g Cons.IH[of "evs @ tickEvents w c t" c'] same step by simp
qed

lemma tickEvents_block:
  "e \<in> set (tickEvents w c t) \<Longrightarrow> block e = transformTickToBlock (now w) t"
  by (auto simp: tickEvents_def transformTransactionsToEvents_def transformTransaction_def
           split: option.splits if_splits)

lemma distinct_keys_of_indexes:
  assumes "distinct (map eventIndex es)"
  shows "distinct (map eventKey es)"
proof -
  have "inj_on eventKey (set es)"
    using assms by (auto simp: distinct_map inj_on_def eventKey_def)
  then show ?thesis using assms by (simp add: distinct_map)
qed

lemma distinct_keys_concat:
  assumes "distinct (map (\<lambda>t. blockNumber (transformTickToBlock (now w) t)) ts)"
    and "\<forall>t\<in>set ts. distinct (map eventIndex (tickEvents w c t))"
  shows "distinct (map eventKey (concat (map (tickEvents w c) ts)))"
  using assms
proof (induction ts)
  case Nil
  then show ?case by simp
next
  case (Cons t ts)
  have here: "distinct (map eventKey (tickEvents w c t))"
    using Cons.prems(2) by (simp add: distinct_keys_of_indexes)
  have rest: "distinct (map eventKey (concat (map (tickEvents w c) ts)))"
    using Cons by simp
  have disj: "eventKey ` set (tickEvents w c t)
                \<inter> eventKey ` set (concat (map (tickEvents w c) ts)) = {}"
  proof -
    have "eventKey e \<noteq> eventKey e'"
      if e: "e \<in> set (tickEvents w c t)" and t': "t' \<in> set ts"
        and e': "e' \<in> set (tickEvents w c t')" for e e' t'
    proof
      assume k: "eventKey e = eventKey e'"
      have "blockNumber (transformTickToBlock (now w) t)
              = blockNumber (transformTickToBlock (now w) t')"
        using tickEvents_block[OF e] tickEvents_block[OF e'] k by (simp add: eventKey_def)
      then show False using Cons.prems(1) t' by auto
    qed
    then show ?thesis by (auto simp del: eventKey_def) (metis)
  qed
  show ?case using here rest disj by simp
qed

lemma distinct_map_sort_key:
  "distinct (map f (sort_key g xs)) = distinct (map f xs)"
  by (simp add: distinct_map)

lemma unsortedEvents_concat:
  "unsortedEvents w c a b
     = concat (map (tickEvents w (snd (getTicksInBlockRange w c a b None)))
                   (fst (getTicksInBlockRange w c a b None)))"
  by (simp add: unsortedEvents_def collectEvents_concat split: prod.splits)

lemma pushTicks_fst:
  "fst (pushTicks nw mx ts (vs, c))
     = vs @ map (normalizeTick nw) (take (nat (mx - int (length vs))) ts)"
proof (induction ts arbitrary: vs c)
  case Nil
  then show ?case by simp
next
  case (Cons t ts)
  show ?case
  proof (cases "int (length vs) \<ge> mx")
    case True
    then show ?thesis by simp
  next
    case False
    then have n: "nat (mx - int (length vs)) = Suc (nat (mx - (1 + int (length vs))))" by simp
    show ?thesis
      using False Cons.IH[of "vs @ [normalizeTick nw t]"]
      by (simp add: Let_def n del: nat_diff_distrib')
  qed
qed

lemma cap_step:
  assumes "n = nat (mx - int (length vs))"
  shows "(vs @ take n X) @ take (nat (mx - int (length (vs @ take n X)))) R = vs @ take n (X @ R)"
proof (cases "length X \<le> n")
  case True
  then have "nat (mx - int (length (vs @ take n X))) = n - length X"
    using assms by simp
  then show ?thesis using True by simp
next
  case False
  then have "nat (mx - int (length (vs @ take n X))) = 0"
    using assms by simp
  then show ?thesis using False by simp
qed

lemma scanPages_fst:
  "fst (scanPages w ep a b mx pages (vs, c))
     = vs @ take (nat (mx - int (length vs)))
              (map (normalizeTick (now w)) (concat (map (pageTicksInRange w a b ep) pages)))"
proof (induction pages arbitrary: vs c)
  case Nil
  then show ?case by simp
next
  case (Cons page pages)
  let ?n = "nat (mx - int (length vs))"
  let ?X = "map (normalizeTick (now w)) (pageTicksInRange w a b ep page)"
  let ?R = "map (normalizeTick (now w)) (concat (map (pageTicksInRange w a b ep) pages))"
  show ?case
  proof (cases "int (length vs) < mx")
    case False
    then show ?thesis by simp
  next
    case True
    define acc where "acc = (case rpc_epochTicks w ep page 500 of
             Inr (Some ts) \<Rightarrow>
               pushTicks (now w) mx (filter (inBlockRange a b) ts) (vs, c)
           | _ \<Rightarrow> (vs, c))"
    have f: "fst acc = vs @ take ?n ?X"
      by (auto simp: acc_def pageTicksInRange_def pushTicks_fst take_map
               split: sum.splits option.splits)
    have "fst (scanPages w ep a b mx (page # pages) (vs, c))
            = fst (scanPages w ep a b mx pages (fst acc, snd acc))"
      using True by (simp add: acc_def)
    also have "\<dots> = fst acc @ take (nat (mx - int (length (fst acc)))) ?R"
      by (rule Cons.IH)
    also have "\<dots> = vs @ take ?n (?X @ ?R)"
      unfolding f by (rule cap_step) simp
    finally show ?thesis by simp
  qed
qed

lemma scanPreviousEpochs_fst:
  "fst (scanPreviousEpochs w cur a b mx (targetPages a b) offs (vs, c))
     = vs @ take (nat (mx - int (length vs)))
              (map (normalizeTick (now w))
                 (concat (map (epochTicksInRange w a b)
                            (filter (\<lambda>ep. 0 \<le> ep) (map (\<lambda>epochOffset. cur - epochOffset) offs)))))"
proof (induction offs arbitrary: vs c)
  case Nil
  then show ?case by simp
next
  case (Cons off offs)
  let ?n = "nat (mx - int (length vs))"
  let ?R = "map (normalizeTick (now w))
                 (concat (map (epochTicksInRange w a b)
                            (filter (\<lambda>ep. 0 \<le> ep) (map (\<lambda>epochOffset. cur - epochOffset) offs))))"
  show ?case
  proof (cases "int (length vs) < mx")
    case False
    then show ?thesis by simp
  next
    case True
    show ?thesis
    proof (cases "cur - off < 0")
      case neg: True
      then show ?thesis using True Cons.IH[of vs c] by simp
    next
      case nonneg: False
      let ?X = "map (normalizeTick (now w)) (epochTicksInRange w a b (cur - off))"
      define acc where "acc = scanPages w (cur - off) a b mx (targetPages a b) (vs, c)"
      have f: "fst acc = vs @ take ?n ?X"
        by (simp add: acc_def scanPages_fst epochTicksInRange_def)
      have "fst (scanPreviousEpochs w cur a b mx (targetPages a b) (off # offs) (vs, c))
              = fst (scanPreviousEpochs w cur a b mx (targetPages a b) offs (fst acc, snd acc))"
        using True nonneg by (simp add: acc_def)
      also have "\<dots> = fst acc @ take (nat (mx - int (length (fst acc)))) ?R"
        by (rule Cons.IH)
      also have "\<dots> = vs @ take ?n (?X @ ?R)"
        unfolding f by (rule cap_step) simp
      finally show ?thesis using nonneg by simp
    qed
  qed
qed

lemma pageScans_fst:
  "fst (scanPreviousEpochs w cur a b mx (targetPages a b) [1, 2, 3, 4, 5]
          (scanPages w cur a b mx (targetPages a b) ([], c)))
     = take (nat mx) (map (normalizeTick (now w)) (listedTicks w cur a b))"
proof -
  let ?X = "map (normalizeTick (now w)) (epochTicksInRange w a b cur)"
  let ?R = "map (normalizeTick (now w))
                 (concat (map (epochTicksInRange w a b)
                            (filter (\<lambda>ep. 0 \<le> ep)
                               (map (\<lambda>epochOffset. cur - epochOffset) [1, 2, 3, 4, 5]))))"
  define acc where "acc = scanPages w cur a b mx (targetPages a b) ([], c)"
  have f: "fst acc = [] @ take (nat mx) ?X"
    by (simp add: acc_def scanPages_fst epochTicksInRange_def)
  have "fst (scanPreviousEpochs w cur a b mx (targetPages a b) [1, 2, 3, 4, 5] (fst acc, snd acc))
          = fst acc @ take (nat (mx - int (length (fst acc)))) ?R"
    by (rule scanPreviousEpochs_fst)
  also have "\<dots> = [] @ take (nat mx) (?X @ ?R)"
    unfolding f by (rule cap_step) simp
  finally show ?thesis by (simp add: acc_def listedTicks_def)
qed

lemma getCurrentEpoch_transactions:
  "transactions (snd (getCurrentEpoch w c)) = transactions c"
  by (auto simp: getCurrentEpoch_def split: sum.splits option.splits)

lemma pushTicks_transactions:
  "transactions (snd (pushTicks nw mx ts (vs, c))) = transactions c"
  by (induction ts arbitrary: vs c) (auto simp: Let_def)

lemma scanPages_transactions:
  "transactions (snd (scanPages w ep a b mx pages (vs, c))) = transactions c"
proof (induction pages arbitrary: vs c)
  case Nil
  then show ?case by simp
next
  case (Cons page pages)
  define acc where "acc = (case rpc_epochTicks w ep page 500 of
             Inr (Some ts) \<Rightarrow>
               pushTicks (now w) mx (filter (inBlockRange a b) ts) (vs, c)
           | _ \<Rightarrow> (vs, c))"
  have t: "transactions (snd acc) = transactions c"
    by (auto simp: acc_def pushTicks_transactions split: sum.splits option.splits)
  show ?case
    using Cons.IH[of "fst acc" "snd acc"] t by (simp add: acc_def[symmetric])
qed

lemma scanPreviousEpochs_transactions:
  "transactions (snd (scanPreviousEpochs w cur a b mx pages offs (vs, c))) = transactions c"
proof (induction offs arbitrary: vs c)
  case Nil
  then show ?case by simp
next
  case (Cons off offs)
  define acc where "acc = scanPages w (cur - off) a b mx pages (vs, c)"
  have t: "transactions (snd acc) = transactions c"
    by (simp add: acc_def scanPages_transactions)
  show ?case
    using Cons.IH[of vs c] Cons.IH[of "fst acc" "snd acc"] t by (simp add: acc_def[symmetric])
qed

lemma getTickByNumber_transactions:
  "transactions (snd (getTickByNumber w c n)) = transactions c"
proof -
  obtain cur c1 where g: "getCurrentEpoch w c = (cur, c1)" by (cases "getCurrentEpoch w c")
  have "transactions c1 = transactions c" using getCurrentEpoch_transactions[of w c] g by simp
  then show ?thesis
    by (auto simp: getTickByNumber_def g Let_def split: option.splits)
qed

lemma middleFallback_transactions:
  "transactions (snd (middleFallback w a b (vs, c))) = transactions c"
  using getTickByNumber_transactions[of w c "(a + b) div 2"]
  by (auto simp: middleFallback_def Let_def split: prod.splits)

lemma middleFallback_fst:
  "vs \<noteq> [] \<Longrightarrow> fst (middleFallback w a b (vs, c)) = vs"
  "length (fst (middleFallback w a b ([], c))) \<le> 1"
  by (auto simp: middleFallback_def Let_def split: prod.splits)

lemma getTicksInBlockRange_transactions:
  "transactions (snd (getTicksInBlockRange w c a b mr)) = transactions c"
proof -
  obtain cur c1 where g: "getCurrentEpoch w c = (cur, c1)" by (cases "getCurrentEpoch w c")
  have t1: "transactions c1 = transactions c" using getCurrentEpoch_transactions[of w c] g by simp
  define mx where "mx = (case mr of None \<Rightarrow> b - a + 1 | Some m \<Rightarrow> min m (b - a + 1))"
  define acc1 where "acc1 = scanPages w cur a b mx (targetPages a b) ([], c1)"
  define acc2 where "acc2 = scanPreviousEpochs w cur a b mx (targetPages a b) [1, 2, 3, 4, 5] acc1"
  define acc3 where "acc3 = middleFallback w a b acc2"
  have "transactions (snd acc1) = transactions c"
    by (simp add: acc1_def scanPages_transactions t1)
  then have "transactions (snd acc2) = transactions c"
    using scanPreviousEpochs_transactions[of w cur a b mx "targetPages a b" "[1, 2, 3, 4, 5]" "fst acc1" "snd acc1"]
    by (simp add: acc2_def)
  then have t3: "transactions (snd acc3) = transactions c"
    using middleFallback_transactions[of w a b "fst acc2" "snd acc2"] by (simp add: acc3_def)
  have "snd (getTicksInBlockRange w c a b mr) = snd acc3"
    by (simp add: getTicksInBlockRange_def g Let_def mx_def acc1_def acc2_def acc3_def
             split: prod.splits)
  then show ?thesis using t3 by simp
qed

lemma tickEvents_transactions:
  "transactions c' = transactions c \<Longrightarrow> tickEvents w c' t = tickEvents w c t"
  by (auto simp: tickEvents_def getTransactionsForTick_def Let_def
           split: option.splits sum.splits)

lemma getTicksInBlockRange_fst:
  fixes w c a b
  defines "cur \<equiv> fst (getCurrentEpoch w c)"
  defines "vs \<equiv> take (nat (b - a + 1)) (map (normalizeTick (now w)) (listedTicks w cur a b))"
  shows "fst (getTicksInBlockRange w c a b None) = sortTicks w tickNumber (ascendingBy tickNumber) vs
         \<or> length (fst (getTicksInBlockRange w c a b None)) \<le> 1"
proof -
  obtain c1 where g: "getCurrentEpoch w c = (cur, c1)"
    unfolding cur_def by (cases "getCurrentEpoch w c") simp
  define acc2 where "acc2 = scanPreviousEpochs w cur a b (b - a + 1) (targetPages a b) [1, 2, 3, 4, 5]
     (scanPages w cur a b (b - a + 1) (targetPages a b) ([], c1))"
  have f2: "fst acc2 = vs"
    unfolding acc2_def vs_def by (rule pageScans_fst)
  define acc3 where "acc3 = middleFallback w a b (fst acc2, snd acc2)"
  have r: "fst (getTicksInBlockRange w c a b None)
      = (if fst acc3 = [] then [] else sortTicks w tickNumber (ascendingBy tickNumber) (fst acc3))"
    by (simp add: getTicksInBlockRange_def g Let_def acc2_def acc3_def split: prod.splits)
  show ?thesis
  proof (cases "vs = []")
    case False
    then have "fst acc3 = vs" using f2 middleFallback_fst(1)[of vs w a b "snd acc2"]
      by (simp add: acc3_def)
    then show ?thesis using r False by simp
  next
    case True
    then have l: "length (fst acc3) \<le> 1"
      using f2 middleFallback_fst(2)[of w a b "snd acc2"] by (simp add: acc3_def)
    show ?thesis
    proof (cases "fst acc3")
      case Nil
      then show ?thesis using r by simp
    next
      case (Cons x xs)
      then have "fst acc3 = [x]" using l by simp
      then show ?thesis using r by (simp add: sortTicks_single)
    qed
  qed
qed

lemma tickKey_normalizeTick: "tickKey (normalizeTick nw t) = tickKey t"
  by (auto simp: tickKey_def normalizeTick_def spread_def over_def js_or_def
           split: option.splits)

lemma blockNumber_tickKey:
  "blockNumber (transformTickToBlock nw t) = js_or0 (tickKey t)"
  by (auto simp: transformTickToBlock_def tickKey_def js_or_def js_or0_def
           split: option.splits)

lemma inBlockRange_tickKey: "inBlockRange a b t \<Longrightarrow> tickKey t \<noteq> None"
  by (auto simp: inBlockRange_def js_le_def split: option.splits)

lemma inBlockRange_tickNumber:
  "inBlockRange a b t \<Longrightarrow> tickNumber (normalizeTick nw t) \<noteq> None"
  by (auto simp: inBlockRange_def js_le_def tickKey_def normalizeTick_def spread_def over_def
                 js_or_def split: option.splits)

lemma pageTicksInRange_inBlockRange:
  "t \<in> set (pageTicksInRange w a b ep page) \<Longrightarrow> inBlockRange a b t"
  by (auto simp: pageTicksInRange_def split: sum.splits option.splits)

lemma listedTicks_inBlockRange:
  "t \<in> set (listedTicks w cur a b) \<Longrightarrow> inBlockRange a b t"
  by (auto simp: listedTicks_def epochTicksInRange_def dest: pageTicksInRange_inBlockRange)

lemma distinct_blockNumbers_listed:
  assumes "distinct (map tickKey ls)" and "\<forall>t\<in>set ls. tickKey t \<noteq> None"
  shows "distinct (map (\<lambda>t. blockNumber (transformTickToBlock nw t))
                       (take n (map (normalizeTick nw) ls)))"
proof -
  have "inj_on (\<lambda>t. js_or0 (tickKey t)) (set ls)"
    using assms by (auto simp: distinct_map inj_on_def js_or0_def split: option.splits)
  then have "distinct (map (\<lambda>t. js_or0 (tickKey t)) ls)"
    using assms(1) by (simp add: distinct_map)
  then have "distinct (map (\<lambda>t. blockNumber (transformTickToBlock nw t))
                           (map (normalizeTick nw) ls))"
    by (simp add: blockNumber_tickKey tickKey_normalizeTick comp_def)
  then show ?thesis
    by (metis distinct_take take_map)
qed

lemma getTicksInBlockRange_distinct_blocks:
  assumes "distinct (map tickKey (listedTicks w (fst (getCurrentEpoch w c)) a b))"
  shows "distinct (map (\<lambda>t. blockNumber (transformTickToBlock (now w) t))
                       (fst (getTicksInBlockRange w c a b None)))"
proof -
  define ls where "ls = listedTicks w (fst (getCurrentEpoch w c)) a b"
  define vs where "vs = take (nat (b - a + 1)) (map (normalizeTick (now w)) ls)"
  have inr: "\<forall>t\<in>set ls. inBlockRange a b t"
    unfolding ls_def by (auto dest: listedTicks_inBlockRange)
  have d: "distinct (map (\<lambda>t. blockNumber (transformTickToBlock (now w) t)) vs)"
    unfolding vs_def using assms inr
    by (intro distinct_blockNumbers_listed) (auto simp: ls_def dest: inBlockRange_tickKey)
  have "set vs \<subseteq> normalizeTick (now w) ` set ls"
    unfolding vs_def by (auto dest: in_set_takeD)
  then have k: "list_all (\<lambda>t. tickNumber t \<noteq> None) vs"
    unfolding list_all_iff using inr inBlockRange_tickNumber[of a b _ "now w"] by blast
  consider "fst (getTicksInBlockRange w c a b None)
              = sortTicks w tickNumber (ascendingBy tickNumber) vs"
    | "length (fst (getTicksInBlockRange w c a b None)) \<le> 1"
    using getTicksInBlockRange_fst[of w c a b] unfolding vs_def ls_def by blast
  then show ?thesis
  proof cases
    case 1
    then show ?thesis using d by (simp add: sortTicks_ascending[OF k] distinct_map_sort_key)
  next
    case 2
    then show ?thesis by (cases "fst (getTicksInBlockRange w c a b None)") auto
  qed
qed

text \<open>
  C4, amended: the Range Collector does not deduplicate, and a tick listed in two
  candidate epochs is returned twice. The events of a valid range request have pairwise
  distinct ordering keys (blockNumber, eventIndex) whenever the upstream lists no tick of
  the range twice (two listed ticks with the same \<^verbatim>\<open>tickNumber || number\<close>) on the pages
  the Range Collector visits, which are the target pages of the current epoch and of the
  epochs 1 to 5 before it that are not negative, and the events made from the
  transactions of any one tick have pairwise distinct event indexes.
\<close>

theorem getEvents_distinct_keys:
  assumes "validRange a b"
    and "distinct (map tickKey (listedTicks w (fst (getCurrentEpoch w c)) a b))"
    and "\<forall>t. distinct (map eventIndex (tickEvents w c t))"
  shows "\<exists>es. fst (getEvents w c a b) = Events es \<and> distinct (map eventKey es)"
proof -
  define c1 where "c1 = snd (getTicksInBlockRange w c a b None)"
  have same: "tickEvents w c1 t = tickEvents w c t" for t
    unfolding c1_def by (rule tickEvents_transactions) (rule getTicksInBlockRange_transactions)
  have i: "\<forall>t\<in>set (fst (getTicksInBlockRange w c a b None)).
             distinct (map eventIndex (tickEvents w c1 t))"
    using assms(3) by (simp add: same)
  have "distinct (map eventKey (unsortedEvents w c a b))"
    unfolding unsortedEvents_concat c1_def[symmetric]
    by (rule distinct_keys_concat[OF getTicksInBlockRange_distinct_blocks[OF assms(2)] i])
  then show ?thesis
    using getEvents_valid[OF assms(1), of w c]
    by (simp add: js_sort_events distinct_map_sort_key)
qed

theorem getEvents_distinct_keys_witness:
  "validRange 1000 1005 \<and>
   distinct (map tickKey (listedTicks upstream_three_ticks
                            (fst (getCurrentEpoch upstream_three_ticks empty_cache)) 1000 1005)) \<and>
   (\<forall>t. distinct (map eventIndex (tickEvents upstream_three_ticks empty_cache t))) \<and>
   (\<exists>es. fst (getEvents upstream_three_ticks empty_cache 1000 1005) = Events es
         \<and> distinct (map eventKey es))"
proof -
  have v: "validRange 1000 1005" by (simp add: validRange_def)
  have d: "distinct (map tickKey (listedTicks upstream_three_ticks
                            (fst (getCurrentEpoch upstream_three_ticks empty_cache)) 1000 1005))"
    by code_simp
  have i: "\<forall>t. distinct (map eventIndex (tickEvents upstream_three_ticks empty_cache t))"
    by (simp add: tickEvents_def getTransactionsForTick_def empty_cache_def
                  upstream_three_ticks_def transformTransactionsToEvents_def
                  transformTransaction_def mkTxn_def mapEventType_def switchEventType_def
                  js_or_def js_or0_def Let_def)
  show ?thesis
    using v d i getEvents_distinct_keys[OF v d i] by simp
qed

text \<open>
  C4, as stated, fails: tick 1000 is listed in epoch 152 and in epoch 151, the request
  for the range 1000 to 1001 collects it from both, and its swap is returned twice, two
  events with the key (1000, 0).
\<close>

theorem getEvents_duplicate_keys_counterexample:
  "validRange 1000 1001 \<and>
   fst (getEvents upstream_tick_in_two_epochs empty_cache 1000 1001)
     = Events [mkEvent 1000 ''tx-f'' 0 Swap, mkEvent 1000 ''tx-f'' 0 Swap]"
  by code_simp

section \<open>Probing the latest block\<close>

text \<open>
  C3 fails: the head is tick 21180050, the probe of the selected tick 21180030 fails, the
  list of recent ticks starts with the head tick itself, its probe answers, and the
  endpoint returns block 21180050, which is not older than the head.
\<close>

theorem getLatestBlock_returns_head:
  "rpc_latestTick upstream_head_answers = Inr (Some 21180050) \<and>
   \<not> rpc_probe_ok upstream_head_answers
       (tickNumber (fst (getLatestTick upstream_head_answers empty_cache))) \<and>
   map tickNumber
     (fst (getRecentValidTicks upstream_head_answers
             (snd (getLatestTick upstream_head_answers empty_cache)) 5))
     = [Some 21180050, Some 21180045, Some 21180030] \<and>
   fst (getLatestBlock upstream_head_answers empty_cache)
     = Block \<lparr> blockNumber = 21180050, blockTimestamp = 1700021180 \<rparr>"
  by code_simp

section \<open>Lookup by timestamp\<close>
















































end
